theory Spec2Isabelle
  imports Complex_Main "HOL-Library.Sublist"
begin

section \<open>scripts/1\_fetch\_data.py: fetching papers from arXiv\<close>

subsection \<open>Data\<close>

text \<open>
  \<^verbatim>\<open>result.published\<close> is a \<^verbatim>\<open>datetime\<close>; the code reads its \<^verbatim>\<open>year\<close> and
  calls \<^verbatim>\<open>isoformat()\<close>, nothing else.
\<close>

record datetime =
  year :: int
  isoformat :: string

text \<open>
  An \<^verbatim>\<open>arxiv.Result\<close>. The attributes carry the prefix \<open>r_\<close> to keep them apart from the
  keys of the paper dictionary. \<^verbatim>\<open>hasattr(result, 'summary')\<close> is \<open>r_summary r \<noteq> None\<close>;
  \<^verbatim>\<open>getattr(result, 'abstract', '')\<close> reads \<open>r_abstract\<close>. \<open>r_authors\<close> holds the
  \<^verbatim>\<open>name\<close> of each author object.
\<close>

record arxiv_result =
  r_entry_id :: string
  r_title :: string
  r_summary :: "string option"
  r_abstract :: "string option"
  r_authors :: "string list"
  r_published :: datetime
  r_categories :: "string list"
  r_primary_category :: string

text \<open>The dictionary built for each paper (lines 62--70).\<close>

record paper =
  arxiv_id :: string
  title :: string
  abstract :: string
  authors :: "string list"
  published :: string
  categories :: "string list"
  primary_category :: string

text \<open>
  What can be raised while the client's results are iterated:
  \<^verbatim>\<open>arxiv.UnexpectedEmptyPageError\<close>; any other instance of \<^verbatim>\<open>Exception\<close>, with its
  message; and an exception that derives from \<^verbatim>\<open>BaseException\<close> only, by the name of its
  class (\<^verbatim>\<open>KeyboardInterrupt\<close> when the user interrupts the run, \<^verbatim>\<open>SystemExit\<close>,
  \<^verbatim>\<open>GeneratorExit\<close>).
\<close>

datatype py_exception =
  UnexpectedEmptyPageError | OtherException string | BaseExceptionOnly string

text \<open>\<^verbatim>\<open>isinstance(e, Exception)\<close>.\<close>

fun is_Exception :: "py_exception \<Rightarrow> bool" where
  "is_Exception UnexpectedEmptyPageError = True"
| "is_Exception (OtherException msg) = True"
| "is_Exception (BaseExceptionOnly cls) = False"

text \<open>The arguments of \<^verbatim>\<open>arxiv.Search\<close> that vary (the sort order is fixed).\<close>

record search =
  query :: string
  max_results :: int

text \<open>
  What \<^verbatim>\<open>client.results(search)\<close> does when iterated: it yields finitely many results and
  then either is exhausted (\<open>None\<close>) or raises.
\<close>

type_synonym results = "arxiv_result list \<times> py_exception option"

text \<open>The module constants read from \<^verbatim>\<open>scripts/categories.json\<close> at import.\<close>

record config =
  CATEGORIES :: "string list"
  START_YEAR :: int

subsection \<open>fetch\_papers\_by\_category\<close>

text \<open>\<^verbatim>\<open>s.split(sep)\<close> for a one-character separator: never empty.\<close>

fun py_split :: "char \<Rightarrow> string \<Rightarrow> string list" where
  "py_split sep [] = [[]]"
| "py_split sep (c # cs) =
     (if c = sep then [] # py_split sep cs
      else (case py_split sep cs of
              [] \<Rightarrow> [[c]]
            | w # ws \<Rightarrow> (c # w) # ws))"

text \<open>Line 54: \<^verbatim>\<open>result.entry_id.split('/')[-1]\<close>.\<close>

definition arxiv_id_of :: "arxiv_result \<Rightarrow> string" where
  "arxiv_id_of result = last (py_split (CHR ''/'') (r_entry_id result))"

text \<open>Line 60.\<close>

definition abstract_of :: "arxiv_result \<Rightarrow> string" where
  "abstract_of result =
     (case r_summary result of
        Some s \<Rightarrow> s
      | None \<Rightarrow> (case r_abstract result of Some a \<Rightarrow> a | None \<Rightarrow> []))"

text \<open>Lines 62--70.\<close>

definition make_paper :: "arxiv_result \<Rightarrow> paper" where
  "make_paper result =
     \<lparr> arxiv_id = arxiv_id_of result,
       title = r_title result,
       abstract = abstract_of result,
       authors = r_authors result,
       published = isoformat (r_published result),
       categories = r_categories result,
       primary_category = r_primary_category result \<rparr>"

text \<open>The local variables the loop updates.\<close>

record loop_state =
  papers :: "paper list"
  seen_ids :: "string set"
  count :: nat

definition init_state :: loop_state where
  "init_state = \<lparr> papers = [], seen_ids = {}, count = 0 \<rparr>"

text \<open>One pass through the body of the \<^verbatim>\<open>for\<close> loop (lines 46--71).\<close>

definition loop_body :: "int \<Rightarrow> arxiv_result \<Rightarrow> loop_state \<Rightarrow> loop_state" where
  "loop_body start_year result st =
     (let st1 = st\<lparr>count := count st + 1\<rparr>;
          pub_year = year (r_published result)
      in if pub_year < start_year then st1
         else let aid = arxiv_id_of result
              in if aid \<in> seen_ids st1 then st1
                 else st1\<lparr>seen_ids := insert aid (seen_ids st1),
                          papers := papers st1 @ [make_paper result]\<rparr>)"

text \<open>
  The \<^verbatim>\<open>try\<close> block: the loop over what the client yields. It ends with the exception the
  iteration raised, if any, and the variables as they stand at that point.
\<close>

fun try_block :: "int \<Rightarrow> arxiv_result list \<Rightarrow> py_exception option \<Rightarrow> loop_state
    \<Rightarrow> py_exception option \<times> loop_state" where
  "try_block start_year [] raised st = (raised, st)"
| "try_block start_year (result # rest) raised st =
     try_block start_year rest raised (loop_body start_year result st)"

text \<open>Line 36: \<^verbatim>\<open>max_results_per_category if max_results_per_category else 20000\<close>.\<close>

definition make_search :: "string \<Rightarrow> int option \<Rightarrow> search" where
  "make_search category max_results_per_category =
     \<lparr> query = ''cat:'' @ category,
       max_results = (case max_results_per_category of
                        None \<Rightarrow> 20000
                      | Some n \<Rightarrow> if n = 0 then 20000 else n) \<rparr>"

text \<open>
  The function. The clause \<^verbatim>\<open>except arxiv.UnexpectedEmptyPageError\<close> (line 76) and the
  clause \<^verbatim>\<open>except Exception\<close> (line 78) only print, and control reaches
  \<^verbatim>\<open>return papers\<close> (line 82). An exception that neither clause matches leaves the
  function: \<open>Inl\<close>.
\<close>

definition fetch_papers_by_category ::
    "(search \<Rightarrow> results) \<Rightarrow> string \<Rightarrow> int \<Rightarrow> int option \<Rightarrow> py_exception + paper list" where
  "fetch_papers_by_category client category start_year max_results_per_category =
     (let (yielded, raised) = client (make_search category max_results_per_category)
      in case try_block start_year yielded raised init_state of
           (None, st) \<Rightarrow> Inr (papers st)
         | (Some UnexpectedEmptyPageError, st) \<Rightarrow> Inr (papers st)
         | (Some (OtherException e), st) \<Rightarrow> Inr (papers st)
         | (Some (BaseExceptionOnly cls), st) \<Rightarrow> Inl (BaseExceptionOnly cls))"

text \<open>
  For the statements: the iteration ends without an exception, or with one that an
  \<^verbatim>\<open>except\<close> clause of lines 76--79 matches.
\<close>

fun handled :: "py_exception option \<Rightarrow> bool" where
  "handled None = True"
| "handled (Some e) = is_Exception e"

subsection \<open>fetch\_arxiv\_papers\<close>

text \<open>The inner loop (lines 118--121) on \<^verbatim>\<open>all_papers\<close> and \<^verbatim>\<open>seen_ids\<close>.\<close>

fun add_papers :: "paper list \<Rightarrow> paper list \<times> string set \<Rightarrow> paper list \<times> string set" where
  "add_papers [] acc = acc"
| "add_papers (p # ps) (all_papers, seen) =
     (if arxiv_id p \<notin> seen
      then add_papers ps (all_papers @ [p], insert (arxiv_id p) seen)
      else add_papers ps (all_papers, seen))"

text \<open>
  The outer loop (lines 114--123). \<open>fetch i\<close> is the \<open>i\<close>-th call of
  \<^verbatim>\<open>fetch_papers_by_category\<close> in this run: the name is looked up in the module at each call
  (the tests replace it), and the network may answer two calls differently.
\<close>

fun fetch_categories ::
    "(nat \<Rightarrow> string \<Rightarrow> int \<Rightarrow> py_exception + paper list) \<Rightarrow> nat \<Rightarrow> string list \<Rightarrow> int
     \<Rightarrow> paper list \<times> string set \<Rightarrow> py_exception + (paper list \<times> string set)" where
  "fetch_categories fetch i [] start_year acc = Inr acc"
| "fetch_categories fetch i (category # rest) start_year acc =
     (case fetch i category start_year of
        Inl e \<Rightarrow> Inl e
      | Inr category_papers \<Rightarrow>
          fetch_categories fetch (Suc i) rest start_year (add_papers category_papers acc))"

definition fetch_arxiv_papers_with ::
    "config \<Rightarrow> (nat \<Rightarrow> string \<Rightarrow> int \<Rightarrow> py_exception + paper list)
     \<Rightarrow> string list option \<Rightarrow> int option \<Rightarrow> py_exception + paper list" where
  "fetch_arxiv_papers_with cfg fetch categories_arg start_year =
     (let cats = (case categories_arg of None \<Rightarrow> CATEGORIES cfg | Some cs \<Rightarrow> cs);
          sy = (case start_year of None \<Rightarrow> START_YEAR cfg | Some y \<Rightarrow> y)
      in case fetch_categories fetch 0 cats sy ([], {}) of
           Inl e \<Rightarrow> Inl e
         | Inr (all_papers, seen) \<Rightarrow> Inr all_papers)"

text \<open>With the module's own \<^verbatim>\<open>fetch_papers_by_category\<close>; \<open>clients i\<close> answers the \<open>i\<close>-th call.\<close>

definition fetch_arxiv_papers ::
    "config \<Rightarrow> (nat \<Rightarrow> search \<Rightarrow> results) \<Rightarrow> string list option \<Rightarrow> int option
     \<Rightarrow> py_exception + paper list" where
  "fetch_arxiv_papers cfg clients categories_arg start_year =
     fetch_arxiv_papers_with cfg
       (\<lambda>i category sy. fetch_papers_by_category (clients i) category sy None)
       categories_arg start_year"

text \<open>
  What the successive calls of the outer loop returned, in category order (the list ends
  early at a call that raises).
\<close>

fun category_results ::
    "(nat \<Rightarrow> string \<Rightarrow> int \<Rightarrow> py_exception + paper list) \<Rightarrow> nat \<Rightarrow> string list \<Rightarrow> int
     \<Rightarrow> paper list list" where
  "category_results fetch i [] start_year = []"
| "category_results fetch i (category # rest) start_year =
     (case fetch i category start_year of
        Inl e \<Rightarrow> []
      | Inr category_papers \<Rightarrow> category_papers # category_results fetch (Suc i) rest start_year)"

subsection \<open>Fixtures of tests/test\_1\_fetch\_data.py\<close>

text \<open>\<^verbatim>\<open>sample_result\<close> of \<^verbatim>\<open>TestFetchPapersByCategory.setUp\<close>, by entry id and year.\<close>

definition sample_result :: "string \<Rightarrow> int \<Rightarrow> arxiv_result" where
  "sample_result entry y =
     \<lparr> r_entry_id = entry, r_title = ''Test Paper'', r_summary = Some ''Test abstract'',
       r_abstract = None, r_authors = [''John Doe''],
       r_published = \<lparr> year = y, isoformat = ''2023-01-15T00:00:00Z'' \<rparr>,
       r_categories = [''cs.AI''], r_primary_category = ''cs.AI'' \<rparr>"

text \<open>\<^verbatim>\<open>sample_paper\<close> of \<^verbatim>\<open>TestFetchArxivPapers.setUp\<close>, by arXiv id.\<close>

definition sample_paper :: "string \<Rightarrow> paper" where
  "sample_paper aid =
     \<lparr> arxiv_id = aid, title = ''Test Paper'', abstract = ''Test abstract'',
       authors = [''John Doe''], published = ''2023-01-15T00:00:00Z'',
       categories = [''cs.AI''], primary_category = ''cs.AI'' \<rparr>"

text \<open>
  What a client yields in the examples: a paper, one from before the start year, the first
  paper again, and a second paper.
\<close>

definition sample_yielded :: "arxiv_result list" where
  "sample_yielded =
     [sample_result ''http://arxiv.org/abs/1234.5678'' 2023,
      sample_result ''http://arxiv.org/abs/9876.5432'' 2019,
      sample_result ''http://arxiv.org/abs/1234.5678'' 2023,
      sample_result ''http://arxiv.org/abs/2401.0001'' 2024]"

text \<open>A client whose iteration then raises \<^verbatim>\<open>UnexpectedEmptyPageError\<close>.\<close>

definition failing_client :: "search \<Rightarrow> results" where
  "failing_client s = (sample_yielded, Some UnexpectedEmptyPageError)"

text \<open>A client whose iteration is then interrupted from the keyboard.\<close>

definition interrupted_client :: "search \<Rightarrow> results" where
  "interrupted_client s = (sample_yielded, Some (BaseExceptionOnly ''KeyboardInterrupt''))"

text \<open>
  Two category queries as in \<^verbatim>\<open>test_fetch_arxiv_papers_deduplication_across_categories\<close>:
  the second returns the paper of the first again, and a new one.
\<close>

definition sample_clients :: "nat \<Rightarrow> search \<Rightarrow> results" where
  "sample_clients i s =
     (if i = 0 then ([sample_result ''http://arxiv.org/abs/1234.5678'' 2023], None)
      else ([sample_result ''http://arxiv.org/abs/1234.5678'' 2023,
             sample_result ''http://arxiv.org/abs/9876.5432'' 2023],
            Some (OtherException ''HTTP 503'')))"

definition sample_config :: config where
  "sample_config = \<lparr> CATEGORIES = [''cs.AI'', ''cs.LG''], START_YEAR = 2020 \<rparr>"

section \<open>scripts/2\_build\_profiles.py: the grouping stage and the overlap scorer\<close>

text \<open>
  The file \<^verbatim>\<open>scripts/2_build_profiles.py\<close> is not among the sources; only its tests
  (\<^verbatim>\<open>tests/test_2_build_profiles.py\<close>) are. The two functions below are written from the
  specification, sections 3, 4.1 and 4.2.
\<close>

subsection \<open>Data\<close>

text \<open>
  Modelled from the spec: the paper mapping that \<^verbatim>\<open>group_papers_by_author\<close> and
  \<^verbatim>\<open>check_paper_overlap\<close> read (section 3, Paper), with the two keys these functions
  look up; \<open>None\<close> is an absent key.
\<close>

record paper_dict =
  d_title :: "string option"
  d_authors :: "string list option"

text \<open>
  Modelled from the spec: a paper of either collection of \<^verbatim>\<open>check_paper_overlap\<close>,
  ``exposing a title via either an attribute or a mapping key'' (section 4.2): a mapping, or
  an object with a \<^verbatim>\<open>title\<close> attribute or none.
\<close>

datatype paper_like = Mapping paper_dict | Object "string option"

subsection \<open>group\_papers\_by\_author (section 4.1)\<close>

text \<open>
  Modelled from the spec: the body of \<^verbatim>\<open>group_papers_by_author\<close> for one paper. The
  paper is appended to the sequence of each name of its author list, so a paper with \<open>N\<close>
  co-authors contributes to \<open>N\<close> groups.
\<close>

fun add_to_groups :: "paper_dict \<Rightarrow> string list \<Rightarrow> (string \<rightharpoonup> paper_dict list)
    \<Rightarrow> (string \<rightharpoonup> paper_dict list)" where
  "add_to_groups p [] groups = groups"
| "add_to_groups p (author # rest) groups =
     add_to_groups p rest
       (groups(author \<mapsto> (case groups author of None \<Rightarrow> [p] | Some ps \<Rightarrow> ps @ [p])))"

text \<open>
  Modelled from the spec: the loop of \<^verbatim>\<open>group_papers_by_author\<close> over the papers in input
  order. ``Papers lacking an authors field are skipped without raising.''
\<close>

fun group_loop :: "paper_dict list \<Rightarrow> (string \<rightharpoonup> paper_dict list)
    \<Rightarrow> (string \<rightharpoonup> paper_dict list)" where
  "group_loop [] groups = groups"
| "group_loop (p # ps) groups =
     (case d_authors p of
        None \<Rightarrow> group_loop ps groups
      | Some names \<Rightarrow> group_loop ps (add_to_groups p names groups))"

text \<open>
  Modelled from the spec: \<^verbatim>\<open>group_papers_by_author\<close>, missing from the sources. The result
  maps a name to the ordered sequence of the papers where the name appears.
\<close>

definition group_papers_by_author :: "paper_dict list \<Rightarrow> (string \<rightharpoonup> paper_dict list)" where
  "group_papers_by_author ps = group_loop ps Map.empty"

text \<open>For the proofs: the sequence of a name, empty when the name is no key.\<close>

definition members :: "(string \<rightharpoonup> paper_dict list) \<Rightarrow> string \<Rightarrow> paper_dict list" where
  "members groups name = (case groups name of None \<Rightarrow> [] | Some ps \<Rightarrow> ps)"

text \<open>For the proofs: what one paper appends to the sequence of a name.\<close>

definition occurrences :: "string \<Rightarrow> paper_dict \<Rightarrow> paper_dict list" where
  "occurrences name p =
     (case d_authors p of None \<Rightarrow> [] | Some names \<Rightarrow> replicate (count_list names name) p)"

subsection \<open>check\_paper\_overlap (section 4.2)\<close>

text \<open>
  Modelled from the spec: the title a paper exposes, if any. ``A paper object without any
  extractable title contributes nothing to its side's title set.''
\<close>

fun extract_title :: "paper_like \<Rightarrow> string option" where
  "extract_title (Mapping d) = d_title d"
| "extract_title (Object t) = t"

text \<open>
  Modelled from the spec: the normalisation of a title, ``case-fold'' and nothing more.
  Titles are ASCII here: the letters A to Z go to lower case, every other character stays.
\<close>

definition lower_char :: "char \<Rightarrow> char" where
  "lower_char c =
     (case map_of (zip ''ABCDEFGHIJKLMNOPQRSTUVWXYZ'' ''abcdefghijklmnopqrstuvwxyz'') c of
        Some l \<Rightarrow> l
      | None \<Rightarrow> c)"

definition casefold :: "string \<Rightarrow> string" where
  "casefold s = map lower_char s"

text \<open>Modelled from the spec: ``build a set of normalized titles per side''.\<close>

definition title_set :: "paper_like list \<Rightarrow> string set" where
  "title_set ps = set (map casefold (List.map_filter extract_title ps))"

text \<open>
  Modelled from the spec: \<^verbatim>\<open>check_paper_overlap\<close>, missing from the sources. ``Either side
  empty: returns exactly 0.0''; otherwise the Jaccard similarity of the two title sets. The
  float is a real number here: the quotient of two small integers, compared with 0 and 1
  only.
\<close>

definition check_paper_overlap :: "paper_like list \<Rightarrow> paper_like list \<Rightarrow> real" where
  "check_paper_overlap arxiv_papers s2_papers =
     (let arxiv_titles = title_set arxiv_papers;
          s2_titles = title_set s2_papers
      in if arxiv_titles = {} \<or> s2_titles = {} then 0
         else real (card (arxiv_titles \<inter> s2_titles))
              / real (card (arxiv_titles \<union> s2_titles)))"

subsection \<open>Fixtures of tests/test\_2\_build\_profiles.py\<close>

text \<open>A paper of the crawled side: \<^verbatim>\<open>{'title': t}\<close>.\<close>

definition dict_paper :: "string \<Rightarrow> paper_like" where
  "dict_paper t = Mapping \<lparr> d_title = Some t, d_authors = None \<rparr>"

text \<open>
  The crawled papers of \<^verbatim>\<open>test_paper_overlap_partial_match\<close>, and its external papers with
  the first title in capitals and an object without a title added.
\<close>

definition arxiv_abc :: "paper_like list" where
  "arxiv_abc = [dict_paper ''Paper A'', dict_paper ''Paper B'', dict_paper ''Paper C'']"

definition s2_ad :: "paper_like list" where
  "s2_ad = [Object (Some ''PAPER A''), Object (Some ''Paper D''), Object None]"

text \<open>
  A paper of co-authors X and Y, and the paper of
  \<^verbatim>\<open>test_group_papers_by_author_no_authors\<close>, which has no \<^verbatim>\<open>authors\<close> key.
\<close>

definition paper_xy :: paper_dict where
  "paper_xy = \<lparr> d_title = Some ''Paper 1'', d_authors = Some [''X'', ''Y''] \<rparr>"

definition paper_no_authors :: paper_dict where
  "paper_no_authors = \<lparr> d_title = Some ''Paper 1'', d_authors = None \<rparr>"


section \<open>Properties of scripts/1\_fetch\_data.py\<close>

subsection \<open>Evaluating the fixtures\<close>

lemma sample_year: "year (r_published (sample_result entry y)) = y"
  by (simp add: sample_result_def)

lemma arxiv_id_sample1:
  "arxiv_id_of (sample_result ''http://arxiv.org/abs/1234.5678'' y) = ''1234.5678''"
  by (simp add: arxiv_id_of_def sample_result_def)

lemma arxiv_id_sample2:
  "arxiv_id_of (sample_result ''http://arxiv.org/abs/9876.5432'' y) = ''9876.5432''"
  by (simp add: arxiv_id_of_def sample_result_def)

lemma arxiv_id_sample3:
  "arxiv_id_of (sample_result ''http://arxiv.org/abs/2401.0001'' y) = ''2401.0001''"
  by (simp add: arxiv_id_of_def sample_result_def)

lemma make_paper_sample1:
  "make_paper (sample_result ''http://arxiv.org/abs/1234.5678'' y) = sample_paper ''1234.5678''"
  by (simp add: make_paper_def arxiv_id_of_def abstract_of_def sample_result_def sample_paper_def)

lemma make_paper_sample2:
  "make_paper (sample_result ''http://arxiv.org/abs/9876.5432'' y) = sample_paper ''9876.5432''"
  by (simp add: make_paper_def arxiv_id_of_def abstract_of_def sample_result_def sample_paper_def)

lemma make_paper_sample3:
  "make_paper (sample_result ''http://arxiv.org/abs/2401.0001'' y) = sample_paper ''2401.0001''"
  by (simp add: make_paper_def arxiv_id_of_def abstract_of_def sample_result_def sample_paper_def)

lemmas sample_simps =
  sample_year arxiv_id_sample1 arxiv_id_sample2 arxiv_id_sample3
  make_paper_sample1 make_paper_sample2 make_paper_sample3

subsection \<open>First occurrences\<close>

text \<open>
  Both functions keep, of the elements with one key, the first. The positions kept in a list
  \<open>xs\<close> are \<open>{i. \<forall>j<i. k (xs ! j) \<noteq> k (xs ! i)}\<close>; the lemmas say what one more element at
  the end does to them, and that the elements kept have all keys of \<open>xs\<close>, each once, with
  the first element of every key.
\<close>

lemma nths_cong_bounded:
  "(\<And>i. i < length xs \<Longrightarrow> (i \<in> A \<longleftrightarrow> i \<in> B)) \<Longrightarrow> nths xs A = nths xs B"
  unfolding nths_def
  by (rule arg_cong [where f = "map fst"], rule filter_cong) (auto simp: set_zip)

lemma first_snoc:
  "nths (xs @ [x]) {i. \<forall>j<i. k ((xs @ [x]) ! j) \<noteq> k ((xs @ [x]) ! i)}
     = nths xs {i. \<forall>j<i. k (xs ! j) \<noteq> k (xs ! i)} @ (if k x \<in> k ` set xs then [] else [x])"
proof -
  let ?A = "{i. \<forall>j<i. k ((xs @ [x]) ! j) \<noteq> k ((xs @ [x]) ! i)}"
  have 1: "nths xs ?A = nths xs {i. \<forall>j<i. k (xs ! j) \<noteq> k (xs ! i)}"
    by (rule nths_cong_bounded) (simp add: nth_append)
  have "length xs \<in> ?A \<longleftrightarrow> (\<forall>j<length xs. k (xs ! j) \<noteq> k x)"
    by (simp add: nth_append)
  also have "\<dots> \<longleftrightarrow> k x \<notin> k ` set xs"
    by (metis imageE image_eqI in_set_conv_nth)
  finally have 2: "nths [x] {j. j + length xs \<in> ?A} = (if k x \<in> k ` set xs then [] else [x])"
    by (simp add: nths_singleton)
  show ?thesis
    by (simp only: nths_append 1 2)
qed

lemma first_keys:
  "k ` set (nths xs {i. \<forall>j<i. k (xs ! j) \<noteq> k (xs ! i)}) = k ` set xs"
proof (induction xs rule: rev_induct)
  case Nil
  show ?case by simp
next
  case (snoc x xs)
  show ?case
    unfolding first_snoc using snoc by (auto simp: image_Un)
qed

lemma first_distinct:
  "distinct (map k (nths xs {i. \<forall>j<i. k (xs ! j) \<noteq> k (xs ! i)}))"
proof (induction xs rule: rev_induct)
  case Nil
  show ?case by simp
next
  case (snoc x xs)
  have "k x \<notin> k ` set xs \<Longrightarrow> k x \<notin> k ` set (nths xs {i. \<forall>j<i. k (xs ! j) \<noteq> k (xs ! i)})"
    using first_keys [of k xs] by simp
  with snoc show ?case
    unfolding first_snoc by auto
qed

lemma first_find:
  "find (\<lambda>y. k y = a) (nths xs {i. \<forall>j<i. k (xs ! j) \<noteq> k (xs ! i)}) = find (\<lambda>y. k y = a) xs"
proof (induction xs rule: rev_induct)
  case Nil
  show ?case by simp
next
  case (snoc x xs)
  have f: "\<And>ys zs. find (\<lambda>y. k y = a) (ys @ zs)
      = (case find (\<lambda>y. k y = a) ys of None \<Rightarrow> find (\<lambda>y. k y = a) zs | Some y \<Rightarrow> Some y)"
    subgoal for ys zs by (induction ys) auto
    done
  show ?case
  proof (cases "find (\<lambda>y. k y = a) xs")
    case None
    then have "a \<notin> k ` set xs" by (auto simp: find_None_iff)
    with None snoc show ?thesis
      unfolding first_snoc by (auto simp: f)
  next
    case (Some y)
    with snoc show ?thesis
      unfolding first_snoc by (simp add: f)
  qed
qed

subsection \<open>The loop of fetch\_papers\_by\_category\<close>

lemma arxiv_id_make_paper: "arxiv_id (make_paper r) = arxiv_id_of r"
  by (simp add: make_paper_def)

lemma try_block_raised: "fst (try_block sy rs raised st) = raised"
  by (induction rs arbitrary: st) auto

lemma try_block_state:
  "snd (try_block sy rs raised st) = foldl (\<lambda>s r. loop_body sy r s) st rs"
  by (induction rs arbitrary: st) auto

lemma loop_invariant:
  "papers (foldl (\<lambda>s r. loop_body sy r s) init_state ys)
     = map make_paper
         (nths (filter (\<lambda>r. sy \<le> year (r_published r)) ys)
            {i. \<forall>j<i. arxiv_id_of (filter (\<lambda>r. sy \<le> year (r_published r)) ys ! j)
                     \<noteq> arxiv_id_of (filter (\<lambda>r. sy \<le> year (r_published r)) ys ! i)})
   \<and> seen_ids (foldl (\<lambda>s r. loop_body sy r s) init_state ys)
     = arxiv_id_of ` set (filter (\<lambda>r. sy \<le> year (r_published r)) ys)
   \<and> count (foldl (\<lambda>s r. loop_body sy r s) init_state ys) = length ys"
proof (induction ys rule: rev_induct)
  case Nil
  show ?case by (simp add: init_state_def)
next
  case (snoc y ys)
  define st where "st = foldl (\<lambda>s r. loop_body sy r s) init_state ys"
  define kept where "kept = filter (\<lambda>r. sy \<le> year (r_published r)) ys"
  from snoc have ih:
    "papers st = map make_paper
       (nths kept {i. \<forall>j<i. arxiv_id_of (kept ! j) \<noteq> arxiv_id_of (kept ! i)})"
    "seen_ids st = arxiv_id_of ` set kept"
    "count st = length ys"
    by (simp_all add: st_def kept_def)
  have step: "foldl (\<lambda>s r. loop_body sy r s) init_state (ys @ [y]) = loop_body sy y st"
    by (simp add: st_def)
  show ?case
  proof (cases "sy \<le> year (r_published y)")
    case False
    then have "filter (\<lambda>r. sy \<le> year (r_published r)) (ys @ [y]) = kept"
      by (simp add: kept_def)
    with False ih show ?thesis
      unfolding step by (simp add: loop_body_def Let_def)
  next
    case True
    then have "filter (\<lambda>r. sy \<le> year (r_published r)) (ys @ [y]) = kept @ [y]"
      by (simp add: kept_def)
    with True ih show ?thesis
      unfolding step by (auto simp: loop_body_def Let_def first_snoc [where k = arxiv_id_of])
  qed
qed

lemma fetch_papers_by_category_eq:
  "fetch_papers_by_category client category sy m =
     (case snd (client (make_search category m)) of
        Some (BaseExceptionOnly cls) \<Rightarrow> Inl (BaseExceptionOnly cls)
      | _ \<Rightarrow> Inr (papers (foldl (\<lambda>s r. loop_body sy r s) init_state
                  (fst (client (make_search category m))))))"
proof -
  obtain yielded raised where c: "client (make_search category m) = (yielded, raised)"
    by (cases "client (make_search category m)")
  obtain e st where t: "try_block sy yielded raised init_state = (e, st)"
    by (cases "try_block sy yielded raised init_state")
  have "st = foldl (\<lambda>s r. loop_body sy r s) init_state yielded" "e = raised"
    using try_block_state [of sy yielded raised init_state]
      try_block_raised [of sy yielded raised init_state] t by simp_all
  then show ?thesis
    unfolding fetch_papers_by_category_def c
    by (simp add: t split: option.split py_exception.split)
qed

lemma fetch_papers_by_category_Inr_iff:
  "(\<exists>ps. fetch_papers_by_category client category sy m = Inr ps)
     \<longleftrightarrow> handled (snd (client (make_search category m)))"
  by (cases "snd (client (make_search category m))" rule: handled.cases)
     (auto simp: fetch_papers_by_category_eq split: py_exception.splits)

text \<open>
  Claim C10, as amended. \<^verbatim>\<open>fetch_papers_by_category\<close> never lets an exception that is an
  instance of \<^verbatim>\<open>Exception\<close> (\<^verbatim>\<open>UnexpectedEmptyPageError\<close> included) leave the function
  when it is raised while the client's results are iterated: it returns the papers collected
  before the failure point. These are, in the order yielded, one paper for each id among the
  yielded results whose publication year is at least the start year, built from the first
  such result: so every returned paper has a publication year of at least the start year,
  every such yielded result has its id in the returned list, and the ids are distinct. An
  exception that derives from \<^verbatim>\<open>BaseException\<close> only leaves the function.
\<close>

theorem fetch_papers_by_category_handles_Exception:
  "let yielded = fst (client (make_search category m));
       raised = snd (client (make_search category m));
       kept = filter (\<lambda>r. start_year \<le> year (r_published r)) yielded;
       collected = map make_paper
         (nths kept {i. \<forall>j<i. arxiv_id_of (kept ! j) \<noteq> arxiv_id_of (kept ! i)})
   in (handled raised \<longrightarrow>
         fetch_papers_by_category client category start_year m = Inr collected)
    \<and> (\<forall>e. raised = Some e \<and> \<not> is_Exception e \<longrightarrow>
         fetch_papers_by_category client category start_year m = Inl e)
    \<and> (\<forall>p \<in> set collected. \<exists>r \<in> set yielded.
          p = make_paper r \<and> start_year \<le> year (r_published r))
    \<and> (\<forall>r \<in> set yielded. start_year \<le> year (r_published r) \<longrightarrow>
          (\<exists>p \<in> set collected. arxiv_id p = arxiv_id_of r))
    \<and> distinct (map arxiv_id collected)"
proof -
  define yielded where "yielded = fst (client (make_search category m))"
  define raised where "raised = snd (client (make_search category m))"
  define kept where "kept = filter (\<lambda>r. start_year \<le> year (r_published r)) yielded"
  define firsts where
    "firsts = nths kept {i. \<forall>j<i. arxiv_id_of (kept ! j) \<noteq> arxiv_id_of (kept ! i)}"
  have run: "papers (foldl (\<lambda>s r. loop_body start_year r s) init_state yielded)
      = map make_paper firsts"
    using loop_invariant [of start_year yielded] by (simp add: firsts_def kept_def)
  have 1: "handled raised \<longrightarrow>
      fetch_papers_by_category client category start_year m = Inr (map make_paper firsts)"
    by (cases raised rule: handled.cases)
       (auto simp: fetch_papers_by_category_eq raised_def [symmetric] yielded_def [symmetric]
          run split: py_exception.splits)
  have 2: "\<forall>e. raised = Some e \<and> \<not> is_Exception e \<longrightarrow>
      fetch_papers_by_category client category start_year m = Inl e"
  proof (intro allI impI)
    fix e assume "raised = Some e \<and> \<not> is_Exception e"
    then show "fetch_papers_by_category client category start_year m = Inl e"
      by (cases e) (simp_all add: fetch_papers_by_category_eq raised_def [symmetric])
  qed
  have sub: "set firsts \<subseteq> set kept"
    by (simp add: firsts_def set_nths_subset)
  have 3: "\<forall>p \<in> set (map make_paper firsts). \<exists>r \<in> set yielded.
      p = make_paper r \<and> start_year \<le> year (r_published r)"
    using sub by (auto simp: kept_def)
  have keys: "arxiv_id_of ` set firsts = arxiv_id_of ` set kept"
    unfolding firsts_def by (rule first_keys)
  have 4: "\<forall>r \<in> set yielded. start_year \<le> year (r_published r) \<longrightarrow>
      (\<exists>p \<in> set (map make_paper firsts). arxiv_id p = arxiv_id_of r)"
  proof (intro ballI impI)
    fix r assume "r \<in> set yielded" "start_year \<le> year (r_published r)"
    then have "arxiv_id_of r \<in> arxiv_id_of ` set kept" by (simp add: kept_def)
    with keys have "arxiv_id_of r \<in> arxiv_id_of ` set firsts" by simp
    then obtain r' where "r' \<in> set firsts" "arxiv_id_of r' = arxiv_id_of r" by auto
    then show "\<exists>p \<in> set (map make_paper firsts). arxiv_id p = arxiv_id_of r"
      by (auto simp: arxiv_id_make_paper)
  qed
  have "arxiv_id \<circ> make_paper = arxiv_id_of"
    by (rule ext) (simp add: arxiv_id_make_paper)
  then have 5: "distinct (map arxiv_id (map make_paper firsts))"
    unfolding firsts_def using first_distinct [of arxiv_id_of kept] by simp
  from 1 2 3 4 5 show ?thesis
    by (simp only: Let_def yielded_def [symmetric] raised_def [symmetric] kept_def [symmetric]
        firsts_def [symmetric])
qed

theorem fetch_papers_by_category_handles_Exception_witness:
  "fetch_papers_by_category failing_client ''cs.AI'' 2023 None
     = Inr [sample_paper ''1234.5678'', sample_paper ''2401.0001'']"
  using fetch_papers_by_category_handles_Exception
    [where client = failing_client and category = "''cs.AI''" and start_year = 2023
       and m = None]
  by (simp add: fetch_papers_by_category_def failing_client_def sample_yielded_def
      init_state_def loop_body_def Let_def sample_simps)

text \<open>
  Claim C10 as stated fails where the iteration is interrupted from the keyboard: the
  exception leaves the function and no list is returned.
\<close>

theorem fetch_papers_by_category_interrupt_counterexample:
  "fetch_papers_by_category interrupted_client ''cs.AI'' 2023 None
     = Inl (BaseExceptionOnly ''KeyboardInterrupt'')"
  by (simp add: fetch_papers_by_category_def interrupted_client_def sample_yielded_def
      init_state_def loop_body_def Let_def sample_simps)

subsection \<open>The loops of fetch\_arxiv\_papers\<close>

lemma add_papers_append:
  "add_papers (xs @ ys) acc = add_papers ys (add_papers xs acc)"
  by (induction xs acc rule: add_papers.induct) auto

lemma add_papers_first:
  "all = nths seen_papers {i. \<forall>j<i. arxiv_id (seen_papers ! j) \<noteq> arxiv_id (seen_papers ! i)} \<Longrightarrow>
   seen = arxiv_id ` set seen_papers \<Longrightarrow>
   add_papers ps (all, seen)
     = (nths (seen_papers @ ps)
          {i. \<forall>j<i. arxiv_id ((seen_papers @ ps) ! j) \<noteq> arxiv_id ((seen_papers @ ps) ! i)},
        arxiv_id ` set (seen_papers @ ps))"
proof (induction ps arbitrary: seen_papers all seen)
  case Nil
  then show ?case by simp
next
  case (Cons p ps)
  let ?d = "seen_papers @ [p]"
  have a: "(if arxiv_id p \<notin> seen then all @ [p] else all)
      = nths ?d {i. \<forall>j<i. arxiv_id (?d ! j) \<noteq> arxiv_id (?d ! i)}"
    using Cons.prems by (simp add: first_snoc [where k = arxiv_id])
  have b: "(if arxiv_id p \<notin> seen then insert (arxiv_id p) seen else seen)
      = arxiv_id ` set ?d"
    using Cons.prems by auto
  have "add_papers (p # ps) (all, seen)
      = add_papers ps (if arxiv_id p \<notin> seen then all @ [p] else all,
                       if arxiv_id p \<notin> seen then insert (arxiv_id p) seen else seen)"
    by simp
  also have "\<dots> = (nths (?d @ ps) {i. \<forall>j<i. arxiv_id ((?d @ ps) ! j) \<noteq> arxiv_id ((?d @ ps) ! i)},
        arxiv_id ` set (?d @ ps))"
    by (rule Cons.IH [OF a b])
  finally show ?case by simp
qed

lemma add_papers_empty:
  "fst (add_papers ps ([], {})) = nths ps {i. \<forall>j<i. arxiv_id (ps ! j) \<noteq> arxiv_id (ps ! i)}"
  using add_papers_first [of "[]" "[]" "{}" ps] by simp

lemma fetch_categories_add_papers:
  "fetch_categories fetch i cats sy acc = Inr acc' \<Longrightarrow>
     acc' = add_papers (concat (category_results fetch i cats sy)) acc
     \<and> length (category_results fetch i cats sy) = length cats"
proof (induction cats arbitrary: i acc)
  case Nil
  then show ?case by simp
next
  case (Cons c cs)
  then show ?case
    by (cases "fetch i c sy") (auto simp: add_papers_append)
qed

lemma fetch_categories_Inr_iff:
  "(\<exists>acc'. fetch_categories fetch i cats sy acc = Inr acc')
     \<longleftrightarrow> (\<forall>k<length cats. \<exists>ps. fetch (i + k) (cats ! k) sy = Inr ps)"
proof (induction cats arbitrary: i acc)
  case Nil
  show ?case by simp
next
  case (Cons c cs)
  show ?case
  proof (cases "fetch i c sy")
    case (Inl e)
    then have "\<not> (\<forall>k<length (c # cs). \<exists>ps. fetch (i + k) ((c # cs) ! k) sy = Inr ps)"
      by (auto intro: exI [of _ 0])
    with Inl show ?thesis by simp
  next
    case (Inr ps)
    have "(\<forall>k<length (c # cs). \<exists>ps. fetch (i + k) ((c # cs) ! k) sy = Inr ps)
        \<longleftrightarrow> (\<forall>k<length cs. \<exists>ps. fetch (Suc i + k) (cs ! k) sy = Inr ps)"
      using Inr by (auto simp: less_Suc_eq_0_disj)
    with Inr Cons.IH [of "Suc i" "add_papers ps acc"] show ?thesis by simp
  qed
qed

lemma category_results_nth:
  "length (category_results fetch i cats sy) = length cats \<Longrightarrow> k < length cats \<Longrightarrow>
     fetch (i + k) (cats ! k) sy = Inr (category_results fetch i cats sy ! k)"
proof (induction cats arbitrary: i k)
  case Nil
  then show ?case by simp
next
  case (Cons c cs)
  show ?case
  proof (cases "fetch i c sy")
    case (Inl e)
    with Cons.prems show ?thesis by simp
  next
    case (Inr ps)
    show ?thesis
    proof (cases k)
      case 0
      with Inr show ?thesis by simp
    next
      case (Suc j)
      with Cons.prems Inr
      have "fetch (Suc i + j) (cs ! j) sy = Inr (category_results fetch (Suc i) cs sy ! j)"
        by (intro Cons.IH) auto
      with Suc Inr show ?thesis by simp
    qed
  qed
qed

text \<open>
  Claim C9. Every list \<^verbatim>\<open>fetch_arxiv_papers\<close> returns holds pairwise distinct
  \<^verbatim>\<open>arxiv_id\<close> values. With the per-category results being what the successive calls of
  \<^verbatim>\<open>fetch_papers_by_category\<close> returned, one per category, the output is a subsequence of
  their concatenation in category order; for every id, the paper of that id in the output is
  the first paper of that id in the concatenation; the length of the output is the number
  of distinct ids among all per-category results; and the output is exactly the papers at the
  positions of the concatenation where an id occurs for the first time. A list is returned
  if and only if no call meets an exception outside \<^verbatim>\<open>Exception\<close>.
\<close>

theorem fetch_arxiv_papers_unique:
  "let cats = (case categories_arg of None \<Rightarrow> CATEGORIES cfg | Some cs \<Rightarrow> cs);
       sy = (case start_year of None \<Rightarrow> START_YEAR cfg | Some y \<Rightarrow> y);
       per_category =
         category_results
           (\<lambda>i category y. fetch_papers_by_category (clients i) category y None) 0 cats sy;
       fetched = concat per_category
   in ((\<exists>out. fetch_arxiv_papers cfg clients categories_arg start_year = Inr out)
         \<longleftrightarrow> (\<forall>k < length cats. handled (snd (clients k (make_search (cats ! k) None)))))
    \<and> (\<forall>out. fetch_arxiv_papers cfg clients categories_arg start_year = Inr out \<longrightarrow>
          length per_category = length cats
        \<and> (\<forall>k < length cats.
              fetch_papers_by_category (clients k) (cats ! k) sy None = Inr (per_category ! k))
        \<and> distinct (map arxiv_id out)
        \<and> subseq out fetched
        \<and> (\<forall>i. find (\<lambda>p. arxiv_id p = i) out = find (\<lambda>p. arxiv_id p = i) fetched)
        \<and> length out = card (arxiv_id ` set fetched)
        \<and> out = nths fetched {i. \<forall>j<i. arxiv_id (fetched ! j) \<noteq> arxiv_id (fetched ! i)})"
proof -
  define cats where "cats = (case categories_arg of None \<Rightarrow> CATEGORIES cfg | Some cs \<Rightarrow> cs)"
  define sy where "sy = (case start_year of None \<Rightarrow> START_YEAR cfg | Some y \<Rightarrow> y)"
  define fetch where
    "fetch = (\<lambda>i category y. fetch_papers_by_category (clients i) category y None)"
  define per_category where "per_category = category_results fetch 0 cats sy"
  define fetched where "fetched = concat per_category"
  define firsts where
    "firsts = nths fetched {i. \<forall>j<i. arxiv_id (fetched ! j) \<noteq> arxiv_id (fetched ! i)}"
  have run: "fetch_arxiv_papers cfg clients categories_arg start_year
      = (case fetch_categories fetch 0 cats sy ([], {}) of
           Inl e \<Rightarrow> Inl e | Inr (all_papers, seen) \<Rightarrow> Inr all_papers)"
    by (simp add: fetch_arxiv_papers_def fetch_arxiv_papers_with_def Let_def
        cats_def [symmetric] sy_def [symmetric] fetch_def [symmetric])
  have "(\<exists>out. fetch_arxiv_papers cfg clients categories_arg start_year = Inr out)
      \<longleftrightarrow> (\<exists>acc'. fetch_categories fetch 0 cats sy ([], {}) = Inr acc')"
    unfolding run by (auto split: sum.splits prod.splits)
  also have "\<dots> \<longleftrightarrow> (\<forall>k<length cats. \<exists>ps. fetch (0 + k) (cats ! k) sy = Inr ps)"
    by (rule fetch_categories_Inr_iff)
  also have "\<dots> \<longleftrightarrow> (\<forall>k<length cats. handled (snd (clients k (make_search (cats ! k) None))))"
    by (simp add: fetch_def fetch_papers_by_category_Inr_iff)
  finally have 1: "(\<exists>out. fetch_arxiv_papers cfg clients categories_arg start_year = Inr out)
      \<longleftrightarrow> (\<forall>k<length cats. handled (snd (clients k (make_search (cats ! k) None))))" .
  have 2: "length per_category = length cats
        \<and> (\<forall>k < length cats.
              fetch_papers_by_category (clients k) (cats ! k) sy None = Inr (per_category ! k))
        \<and> distinct (map arxiv_id out)
        \<and> subseq out fetched
        \<and> (\<forall>i. find (\<lambda>p. arxiv_id p = i) out = find (\<lambda>p. arxiv_id p = i) fetched)
        \<and> length out = card (arxiv_id ` set fetched)
        \<and> out = firsts"
    if out: "fetch_arxiv_papers cfg clients categories_arg start_year = Inr out" for out
  proof -
    from out obtain seen where acc: "fetch_categories fetch 0 cats sy ([], {}) = Inr (out, seen)"
      unfolding run by (auto split: sum.splits prod.splits)
    from fetch_categories_add_papers [OF acc]
    have eq: "(out, seen) = add_papers fetched ([], {})"
      and len: "length per_category = length cats"
      by (simp_all add: per_category_def fetched_def)
    have o: "out = firsts"
      using add_papers_empty [of fetched] eq [symmetric] by (simp add: firsts_def)
    have nth: "\<forall>k < length cats.
        fetch_papers_by_category (clients k) (cats ! k) sy None = Inr (per_category ! k)"
      using category_results_nth [of fetch 0 cats sy] len
      by (simp add: per_category_def fetch_def)
    have d: "distinct (map arxiv_id firsts)"
      unfolding firsts_def by (rule first_distinct)
    have s: "subseq firsts fetched"
      unfolding firsts_def subseq_conv_nths by blast
    have f: "\<forall>i. find (\<lambda>p. arxiv_id p = i) firsts = find (\<lambda>p. arxiv_id p = i) fetched"
      unfolding firsts_def by (simp add: first_find)
    have "length firsts = length (map arxiv_id firsts)" by simp
    also have "\<dots> = card (set (map arxiv_id firsts))"
      using d by (simp only: distinct_card)
    also have "\<dots> = card (arxiv_id ` set fetched)"
      unfolding firsts_def by (simp add: first_keys)
    finally have l: "length firsts = card (arxiv_id ` set fetched)" .
    from len nth d s f l o show ?thesis by simp
  qed
  from 1 2 show ?thesis
    by (simp only: Let_def cats_def [symmetric] sy_def [symmetric] fetch_def [symmetric]
        per_category_def [symmetric] fetched_def [symmetric] firsts_def [symmetric]) blast
qed

theorem fetch_arxiv_papers_unique_witness:
  "fetch_arxiv_papers sample_config sample_clients (Some [''cs.AI'', ''cs.LG'']) None
     = Inr [sample_paper ''1234.5678'', sample_paper ''9876.5432'']"
  using fetch_arxiv_papers_unique
    [where cfg = sample_config and clients = sample_clients
       and categories_arg = "Some [''cs.AI'', ''cs.LG'']" and start_year = None]
  by (simp add: fetch_arxiv_papers_def fetch_arxiv_papers_with_def fetch_papers_by_category_def
      sample_config_def sample_clients_def init_state_def loop_body_def Let_def sample_simps
      sample_paper_def)

section \<open>Properties of the grouping stage and the overlap scorer\<close>

subsection \<open>group\_papers\_by\_author\<close>

lemma add_to_groups_members:
  "members (add_to_groups p names groups) name
     = members groups name @ replicate (count_list names name) p"
  by (induction names arbitrary: groups)
     (auto simp: members_def replicate_append_same split: option.splits)

lemma add_to_groups_dom:
  "dom (add_to_groups p names groups) = dom groups \<union> set names"
  by (induction names arbitrary: groups) auto

lemma group_loop_members:
  "members (group_loop ps groups) name
     = members groups name @ concat (map (occurrences name) ps)"
  by (induction ps arbitrary: groups)
     (auto simp: occurrences_def add_to_groups_members split: option.splits)

lemma group_loop_dom:
  "dom (group_loop ps groups)
     = dom groups \<union> {n. \<exists>p \<in> set ps. \<exists>names. d_authors p = Some names \<and> n \<in> set names}"
  by (induction ps arbitrary: groups) (auto simp: add_to_groups_dom split: option.splits)

lemma group_loop_skip:
  "group_loop (filter (\<lambda>p. d_authors p \<noteq> None) ps) groups = group_loop ps groups"
  by (induction ps arbitrary: groups) (auto split: option.splits)

lemma group_lookup:
  "group_papers_by_author ps name = Some grp \<Longrightarrow> grp = concat (map (occurrences name) ps)"
  using group_loop_members [of ps Map.empty name]
  by (simp add: group_papers_by_author_def members_def)

lemma occurrences_mem:
  "p \<in> set (occurrences name q) \<Longrightarrow>
     p = q \<and> (\<exists>names. d_authors q = Some names \<and> name \<in> set names)"
proof (cases "d_authors q")
  case None
  assume "p \<in> set (occurrences name q)"
  with None show ?thesis by (simp add: occurrences_def)
next
  case (Some names)
  assume "p \<in> set (occurrences name q)"
  with Some have "p = q \<and> count_list names name \<noteq> 0"
    by (auto simp: occurrences_def split: if_splits)
  with Some show ?thesis by (simp add: count_list_0_iff)
qed

lemma group_present:
  assumes "p \<in> set ps" "d_authors p = Some names" "X \<in> set names"
  shows "\<exists>g. group_papers_by_author ps X = Some g \<and> p \<in> set g"
proof -
  have "X \<in> dom (group_papers_by_author ps)"
    using assms by (auto simp: group_papers_by_author_def group_loop_dom)
  then obtain g where g: "group_papers_by_author ps X = Some g" by blast
  have "count_list names X \<noteq> 0" using assms(3) by (simp add: count_list_0_iff)
  then have "0 < count_list names X" by simp
  then have "p \<in> set (occurrences X p)" using assms(2) by (simp add: occurrences_def)
  with assms(1) have "p \<in> set (concat (map (occurrences X) ps))" by auto
  with group_lookup [OF g] g show ?thesis by simp
qed

text \<open>
  Claim C8. \<^verbatim>\<open>group_papers_by_author\<close> returns a mapping for every input (the model has no
  failing branch: a paper without the authors field takes the branch that skips it). The empty
  input yields the empty mapping; the papers without the authors field change nothing, and
  every paper of a group is an input paper that lists the group's name, so such a paper is in
  no group; a paper that lists co-authors X and Y is in the sequence of X and in that of Y.
\<close>

theorem group_papers_by_author_groups:
  "group_papers_by_author [] = Map.empty
   \<and> group_papers_by_author ps
       = group_papers_by_author (filter (\<lambda>p. d_authors p \<noteq> None) ps)
   \<and> (\<forall>name grp p. group_papers_by_author ps name = Some grp \<and> p \<in> set grp
        \<longrightarrow> p \<in> set ps \<and> (\<exists>names. d_authors p = Some names \<and> name \<in> set names))
   \<and> (\<forall>p names X Y. p \<in> set ps \<and> d_authors p = Some names \<and> X \<in> set names \<and> Y \<in> set names
        \<longrightarrow> (\<exists>gx gy. group_papers_by_author ps X = Some gx \<and> p \<in> set gx
                    \<and> group_papers_by_author ps Y = Some gy \<and> p \<in> set gy))"
proof (intro conjI allI impI)
  show "group_papers_by_author [] = Map.empty"
    by (simp add: group_papers_by_author_def)
  show "group_papers_by_author ps
          = group_papers_by_author (filter (\<lambda>p. d_authors p \<noteq> None) ps)"
    using group_loop_skip [of ps Map.empty] by (simp only: group_papers_by_author_def)
next
  fix name grp p
  assume a: "group_papers_by_author ps name = Some grp \<and> p \<in> set grp"
  then have "p \<in> set (concat (map (occurrences name) ps))"
    using group_lookup by blast
  then obtain q where q: "q \<in> set ps" "p \<in> set (occurrences name q)" by auto
  from occurrences_mem [OF q(2)] q(1) show "p \<in> set ps"
    by simp
  from occurrences_mem [OF q(2)]
  show "\<exists>names. d_authors p = Some names \<and> name \<in> set names"
    by simp
next
  fix p names X Y
  assume a: "p \<in> set ps \<and> d_authors p = Some names \<and> X \<in> set names \<and> Y \<in> set names"
  then show "\<exists>gx gy. group_papers_by_author ps X = Some gx \<and> p \<in> set gx
                    \<and> group_papers_by_author ps Y = Some gy \<and> p \<in> set gy"
    using group_present [of p ps names X] group_present [of p ps names Y] by blast
qed

theorem group_papers_by_author_groups_witness:
  "group_papers_by_author [paper_no_authors, paper_xy] ''X'' = Some [paper_xy]
   \<and> group_papers_by_author [paper_no_authors, paper_xy] ''Y'' = Some [paper_xy]
   \<and> dom (group_papers_by_author [paper_no_authors, paper_xy]) = {''X'', ''Y''}"
  using group_papers_by_author_groups [of "[paper_no_authors, paper_xy]"]
  by (auto simp: group_papers_by_author_def paper_xy_def paper_no_authors_def split: if_splits)

subsection \<open>check\_paper\_overlap\<close>

lemma title_set_iff:
  "title_set ps = {casefold s | s p. p \<in> set ps \<and> extract_title p = Some s}"
proof -
  have "set (List.map_filter extract_title ps) = {s. \<exists>p \<in> set ps. extract_title p = Some s}"
    by (induction ps) (auto simp: List.map_filter_simps split: option.splits)
  then show ?thesis
    by (auto simp: title_set_def)
qed

lemma finite_title_set: "finite (title_set ps)"
  by (simp add: title_set_def)

lemma jaccard_bounds:
  assumes "finite A" "finite B" "A \<noteq> {}"
  shows "0 \<le> real (card (A \<inter> B)) / real (card (A \<union> B))"
    and "real (card (A \<inter> B)) / real (card (A \<union> B)) \<le> 1"
    and "0 < real (card (A \<inter> B)) / real (card (A \<union> B)) \<longleftrightarrow> A \<inter> B \<noteq> {}"
proof -
  have pos: "0 < card (A \<union> B)" using assms by (simp add: card_gt_0_iff)
  show "0 \<le> real (card (A \<inter> B)) / real (card (A \<union> B))" by simp
  have "card (A \<inter> B) \<le> card (A \<union> B)"
    using assms by (intro card_mono) auto
  with pos show "real (card (A \<inter> B)) / real (card (A \<union> B)) \<le> 1" by simp
  have "0 < card (A \<inter> B) \<longleftrightarrow> A \<inter> B \<noteq> {}"
    using assms by (simp add: card_gt_0_iff)
  with pos show "0 < real (card (A \<inter> B)) / real (card (A \<union> B)) \<longleftrightarrow> A \<inter> B \<noteq> {}"
    by (simp add: zero_less_divide_iff)
qed

lemma title_set_arxiv_abc: "title_set arxiv_abc = {''paper a'', ''paper b'', ''paper c''}"
  by (simp add: arxiv_abc_def title_set_def dict_paper_def casefold_def lower_char_def)

lemma title_set_s2_ad: "title_set s2_ad = {''paper a'', ''paper d''}"
  by (simp add: s2_ad_def title_set_def casefold_def lower_char_def)

lemma overlap_abc_ad: "check_paper_overlap arxiv_abc s2_ad = 1 / 4"
  by (simp add: check_paper_overlap_def title_set_arxiv_abc title_set_s2_ad card_insert_if)

text \<open>
  The input of \<^verbatim>\<open>test_paper_overlap_no_match\<close> (line 324), where the test expects 0.5:
  two collections without a common title score 0.
\<close>

lemma overlap_no_match:
  "check_paper_overlap [dict_paper ''Paper A''] [Object (Some ''Paper B'')] = 0"
  by (simp add: check_paper_overlap_def title_set_def dict_paper_def casefold_def lower_char_def)

text \<open>
  Claim C1. With \<open>T(A)\<close> the set of the case-folded titles that can be extracted from the
  papers of \<open>A\<close>: whenever \<open>T(A)\<close> and \<open>T(B)\<close> are both non-empty,
  \<^verbatim>\<open>check_paper_overlap(A, B)\<close> is the Jaccard similarity
  \<open>|T(A) \<inter> T(B)| / |T(A) \<union> T(B)|\<close>, so it lies between 0 and 1, is greater than 0 exactly
  when the two sets share a title, and is 1 when the two title sets are equal (as when
  \<open>A = B\<close>); whenever either title set is empty the result is exactly 0.
\<close>

theorem check_paper_overlap_jaccard:
  "title_set A = {casefold s | s p. p \<in> set A \<and> extract_title p = Some s}
   \<and> (title_set A \<noteq> {} \<and> title_set B \<noteq> {} \<longrightarrow>
        check_paper_overlap A B
          = real (card (title_set A \<inter> title_set B)) / real (card (title_set A \<union> title_set B))
        \<and> 0 \<le> check_paper_overlap A B \<and> check_paper_overlap A B \<le> 1
        \<and> (0 < check_paper_overlap A B \<longleftrightarrow> title_set A \<inter> title_set B \<noteq> {})
        \<and> (title_set A = title_set B \<longrightarrow> check_paper_overlap A B = 1))
   \<and> (title_set A = {} \<or> title_set B = {} \<longrightarrow> check_paper_overlap A B = 0)"
proof (intro conjI impI)
  show "title_set A = {casefold s | s p. p \<in> set A \<and> extract_title p = Some s}"
    by (rule title_set_iff)
next
  assume ne: "title_set A \<noteq> {} \<and> title_set B \<noteq> {}"
  then show eq: "check_paper_overlap A B
      = real (card (title_set A \<inter> title_set B)) / real (card (title_set A \<union> title_set B))"
    by (simp add: check_paper_overlap_def Let_def)
  from ne jaccard_bounds [OF finite_title_set [of A] finite_title_set [of B]]
  show "0 \<le> check_paper_overlap A B" "check_paper_overlap A B \<le> 1"
    "0 < check_paper_overlap A B \<longleftrightarrow> title_set A \<inter> title_set B \<noteq> {}"
    unfolding eq by blast+
  assume "title_set A = title_set B"
  with ne finite_title_set [of A] show "check_paper_overlap A B = 1"
    unfolding eq by (simp add: card_gt_0_iff)
next
  assume "title_set A = {} \<or> title_set B = {}"
  then show "check_paper_overlap A B = 0"
    by (auto simp: check_paper_overlap_def Let_def)
qed

theorem check_paper_overlap_jaccard_witness:
  "check_paper_overlap arxiv_abc s2_ad = 1 / 4
   \<and> title_set arxiv_abc \<inter> title_set s2_ad \<noteq> {}"
proof -
  have ne: "title_set arxiv_abc \<noteq> {} \<and> title_set s2_ad \<noteq> {}"
    by (simp add: title_set_arxiv_abc title_set_s2_ad)
  with check_paper_overlap_jaccard [of arxiv_abc s2_ad]
  have "0 < check_paper_overlap arxiv_abc s2_ad
          \<longleftrightarrow> title_set arxiv_abc \<inter> title_set s2_ad \<noteq> {}"
    by blast
  then show ?thesis
    by (simp add: overlap_abc_ad)
qed

end
